theory Spec2Isabelle
  imports Main
begin

section \<open>The build script \<^verbatim>\<open>compile-packages.mjs\<close>\<close>

text \<open>
  The script discovers the packages of a workspace, orders them, and for each package
  either skips it, or copies two shared files, globs the sources and calls the bundler
  twice and the declaration emitter once. Everything it calls (lerna, fast-glob, esbuild,
  the TypeScript compiler, Node's \<^verbatim>\<open>fs\<close>) lives outside the repository: the model
  takes each such collaborator as a field of an environment record and writes every call
  the script makes into a trace, so that what the script itself decides (which calls, with
  which arguments, in which order, and where it stops) is what the theorems are about.
\<close>

subsection \<open>Values and paths\<close>

text \<open>
  A value read from a manifest (\<^verbatim>\<open>pkgJSON.scripts?.build\<close>): JSON values, and
  \<^verbatim>\<open>undefined\<close> for an absent \<^verbatim>\<open>scripts\<close> or \<^verbatim>\<open>build\<close>. The script
  only tests it for truthiness.
\<close>

datatype jsval = JUndefined | JNull | JBool bool | JNum int | JStr string | JObj

fun truthy :: "jsval \<Rightarrow> bool" where
  "truthy JUndefined = False"
| "truthy JNull = False"
| "truthy (JBool b) = b"
| "truthy (JNum n) = (n \<noteq> 0)"
| "truthy (JStr s) = (s \<noteq> [])"
| "truthy JObj = True"

text \<open>
  A path is the list of its segments. \<^verbatim>\<open>Absolute\<close> paths start at the root of the file
  system, \<^verbatim>\<open>Relative\<close> ones are resolved against the working directory when the file
  system is reached.
\<close>

type_synonym path = "string list"

datatype fpath = Absolute path | Relative path

text \<open>
  Node's normalisation of a segment list: \<^verbatim>\<open>.\<close> and empty segments vanish, \<^verbatim>\<open>..\<close>
  removes the segment before it; at the front, an absolute path drops it and a relative
  path keeps it. The accumulator holds the segments kept so far, last one first.
\<close>

fun normalize_onto :: "bool \<Rightarrow> path \<Rightarrow> path \<Rightarrow> path" where
  "normalize_onto ab acc [] = rev acc"
| "normalize_onto ab acc (s # ss) =
     (if s = ''.'' \<or> s = [] then normalize_onto ab acc ss
      else if s = ''..'' then
        (case acc of
           [] \<Rightarrow> if ab then normalize_onto ab [] ss else normalize_onto ab [''..''] ss
         | t # ts \<Rightarrow>
             if t = ''..'' then normalize_onto ab (''..'' # acc) ss
             else normalize_onto ab ts ss)
      else normalize_onto ab (s # acc) ss)"

text \<open>\<^verbatim>\<open>path.relative(from, to)\<close> for two absolute, normalised paths.\<close>

fun path_relative :: "path \<Rightarrow> path \<Rightarrow> path" where
  "path_relative (a # as) (b # bs) =
     (if a = b then path_relative as bs
      else replicate (length (a # as)) ''..'' @ (b # bs))"
| "path_relative as [] = replicate (length as) ''..''"
| "path_relative [] bs = bs"

text \<open>\<^verbatim>\<open>path.join(base, seg...)\<close> for a relative base.\<close>

definition path_join :: "path \<Rightarrow> path \<Rightarrow> fpath" where
  "path_join base segs = Relative (normalize_onto False [] (base @ segs))"

text \<open>
  \<^verbatim>\<open>path.resolve(base, seg...)\<close>: an absolute base is kept, a relative one is put
  under the working directory \<open>wd\<close>.
\<close>

fun path_resolve :: "path \<Rightarrow> fpath \<Rightarrow> path \<Rightarrow> path" where
  "path_resolve wd (Absolute base) segs = normalize_onto True [] (base @ segs)"
| "path_resolve wd (Relative base) segs = normalize_onto True [] (wd @ base @ segs)"

text \<open>
  The file a path names when \<^verbatim>\<open>fs\<close> is handed it: relative paths are taken from the
  process's working directory.
\<close>

definition fs_key :: "path \<Rightarrow> fpath \<Rightarrow> path" where
  "fs_key wd p = path_resolve wd p []"

text \<open>
  A path as the string the platform writes: every segment after the separator, behind
  the drive prefix (empty on POSIX).
\<close>

definition path_string :: "string \<Rightarrow> char \<Rightarrow> path \<Rightarrow> string" where
  "path_string drive sep p = drive @ concat (map (\<lambda>s. sep # s) p)"

text \<open>\<^verbatim>\<open>.replace(/\\/g, '/')\<close>: every backslash becomes a slash.\<close>

definition replace_backslashes :: "string \<Rightarrow> string" where
  "replace_backslashes s = map (\<lambda>c. if c = CHR 0x5C then CHR ''/'' else c) s"

subsection \<open>Packages and options\<close>

text \<open>
  A package as lerna describes it: the script reads \<^verbatim>\<open>location\<close> and, through
  \<^verbatim>\<open>toJSON()\<close>, \<^verbatim>\<open>name\<close> and \<^verbatim>\<open>scripts.build\<close>; the private flag and the names
  of the packages it depends on are what lerna's filter and batching read.
\<close>

record package =
  pkg_name :: string
  pkg_location :: path
  pkg_private :: bool
  pkg_scripts_build :: jsval
  pkg_dependencies :: "string list"

text \<open>
  The parsed command line (\<^verbatim>\<open>minimist\<close>): \<^verbatim>\<open>--scope\<close> and \<^verbatim>\<open>--ignore\<close> are
  absent, one pattern or several; \<^verbatim>\<open>--watch\<close> is a flag.
\<close>

record argv =
  argv_scope :: "string list option"
  argv_ignore :: "string list option"
  argv_watch :: bool

datatype error =
    DiscoveryError
  | FilterError
  | CycleError
  | MissingSharedFileError path

subsection \<open>The TypeScript and esbuild interfaces\<close>

datatype message_text = MessageString string | MessageChain string "message_text list"

record source_file =
  fileName :: string

record diagnostic =
  diag_file :: "source_file option"
  diag_start :: nat
  diag_messageText :: message_text

record compiler_options =
  co_declaration :: bool
  co_emitDeclarationOnly :: bool
  co_skipLibCheck :: bool
  co_module :: string
  co_target :: string
  co_outDir :: fpath
  co_downlevelIteration :: bool
  co_esModuleInterop :: bool
  co_experimentalDecorators :: bool

text \<open>
  The \<^verbatim>\<open>watch\<close> option of a build: the flag itself, or the object holding the
  \<^verbatim>\<open>onRebuild\<close> hook. The hook is a closure over the package's name, entry points and
  output directory, which is what \<^verbatim>\<open>emitTSDeclaration\<close> reads.
\<close>

datatype watch_option = WatchFlag bool | WatchOnRebuild string "string list" fpath

record build_options =
  bo_entryPoints :: "string list"
  bo_outdir :: fpath
  bo_format :: string
  bo_sourcemap :: string
  bo_platform :: string
  bo_outExtension :: "(string \<times> string) list"
  bo_watch :: watch_option

subsection \<open>The environment\<close>

text \<open>
  What the script is run in and what it calls. The functions stand for the libraries:
  the model fixes nothing about them but their types. Those that read the disk
  (\<^verbatim>\<open>glob.sync\<close>, the compiler) take the file system of the moment they are called.
  A program is known by the entry points and options it was created with;
  \<open>emit_diagnostics\<close> is \<^verbatim>\<open>program.emit().diagnostics\<close>.
\<close>

record env =
  dirname :: path
  cwd :: path
  drive :: string
  sep :: char
  getPackages :: "path \<Rightarrow> error + package list"
  glob_valid :: "string \<Rightarrow> bool"
  glob_match :: "string \<Rightarrow> string \<Rightarrow> bool"
  batchPackages :: "package list \<Rightarrow> error + package list list"
  glob_sync :: "(path \<rightharpoonup> string) \<Rightarrow> string \<Rightarrow> string list"
  emit_diagnostics ::
    "(path \<rightharpoonup> string) \<Rightarrow> string list \<Rightarrow> compiler_options \<Rightarrow> diagnostic list"
  getPreEmitDiagnostics ::
    "(path \<rightharpoonup> string) \<Rightarrow> string list \<Rightarrow> compiler_options \<Rightarrow> diagnostic list"
  getLineAndCharacterOfPosition :: "source_file \<Rightarrow> nat \<Rightarrow> nat \<times> nat"
  flattenDiagnosticMessageText :: "message_text \<Rightarrow> string \<Rightarrow> string"

subsection \<open>Package discovery and ordering\<close>

text \<open>
  Modelled from the spec: \<^verbatim>\<open>filterPackages\<close> of \<^verbatim>\<open>@lerna/filter-packages\<close> is
  not in the repository. Section 4.2 (b): keep a package iff it matches \<^verbatim>\<open>scope\<close> (or
  no \<^verbatim>\<open>scope\<close> is given) and does not match \<^verbatim>\<open>ignore\<close>, and exclude the packages
  marked private (unless asked to include them); section 4.1: an unparsable pattern
  fails with \<^verbatim>\<open>FilterError\<close>. A package matches a list of patterns when it matches
  one of them, by its name.
\<close>

definition patterns_of :: "string list option \<Rightarrow> string list" where
  "patterns_of opt = (case opt of None \<Rightarrow> [] | Some ps \<Rightarrow> ps)"

definition matches :: "env \<Rightarrow> string list option \<Rightarrow> package \<Rightarrow> bool" where
  "matches e opt p = list_ex (\<lambda>pat. glob_match e pat (pkg_name p)) (patterns_of opt)"

definition keeps :: "env \<Rightarrow> string list option \<Rightarrow> string list option \<Rightarrow> bool \<Rightarrow> package \<Rightarrow> bool" where
  "keeps e scope ignore includePrivate p =
     ((scope = None \<or> matches e scope p) \<and> \<not> matches e ignore p
      \<and> (includePrivate \<or> \<not> pkg_private p))"

definition filterPackages ::
  "env \<Rightarrow> package list \<Rightarrow> string list option \<Rightarrow> string list option \<Rightarrow> bool
   \<Rightarrow> error + package list" where
  "filterPackages e packages scope ignore includePrivate =
     (if list_all (glob_valid e) (patterns_of scope @ patterns_of ignore)
      then Inr (filter (keeps e scope ignore includePrivate) packages)
      else Inl FilterError)"

text \<open>
  \<^verbatim>\<open>getSortedPackages(scope, ignore)\<close>: discover, filter, batch, and flatten the batches
  with \<^verbatim>\<open>reduce((arr, batch) => arr.concat(batch), [])\<close>. A collaborator that throws
  ends the call.
\<close>

definition getSortedPackages ::
  "env \<Rightarrow> string list option \<Rightarrow> string list option \<Rightarrow> error + package list" where
  "getSortedPackages e scope ignore =
     (case getPackages e (dirname e) of
        Inl err \<Rightarrow> Inl err
      | Inr packages \<Rightarrow>
          (case filterPackages e packages scope ignore False of
             Inl err \<Rightarrow> Inl err
           | Inr filtered \<Rightarrow>
               (case batchPackages e filtered of
                  Inl err \<Rightarrow> Inl err
                | Inr batches \<Rightarrow> Inr (foldl (\<lambda>arr batch. arr @ batch) [] batches))))"

text \<open>\<open>a\<close> depends on \<open>b\<close>: \<open>b\<close>'s name is among \<open>a\<close>'s declared dependencies.\<close>

definition depends_on :: "package \<Rightarrow> package \<Rightarrow> bool" where
  "depends_on a b = (pkg_name b \<in> set (pkg_dependencies a))"

text \<open>
  Modelled from the spec: \<^verbatim>\<open>batchPackages\<close> of \<^verbatim>\<open>@lerna/batch-packages\<close> is not
  in the repository. Section 4.2 (c): it partitions the filtered set into batches, and
  every package in batch \<open>k\<close> depends only on packages in batches before \<open>k\<close>
  (dependencies being counted among the packages batched).
\<close>

definition batches_partition :: "package list \<Rightarrow> package list list \<Rightarrow> bool" where
  "batches_partition filtered batches =
     (set (concat batches) = set filtered \<and> distinct (concat batches))"

definition batches_ordered :: "package list list \<Rightarrow> bool" where
  "batches_ordered batches =
     (\<forall>k \<in> set [0..<length batches]. \<forall>a \<in> set (batches ! k). \<forall>b \<in> set (concat batches).
        depends_on a b \<longrightarrow> b \<in> set (concat (take k batches)))"

text \<open>
  The invariant of the ordered sequence (spec, section 3): for every pair of positions
  \<open>i\<close>, \<open>j\<close> where the package at \<open>i\<close> depends on the package at \<open>j\<close>, \<open>j\<close> is at
  or before \<open>i\<close>.
\<close>

definition dependency_ordered :: "package list \<Rightarrow> bool" where
  "dependency_ordered ps =
     (\<forall>i \<in> set [0..<length ps]. \<forall>j \<in> set [0..<length ps].
        depends_on (ps ! i) (ps ! j) \<longrightarrow> j \<le> i)"

subsection \<open>The world the script acts on\<close>

text \<open>
  Every call that leaves the script, in the order the script makes it. The bundler's and
  the compiler's own writes (under \<^verbatim>\<open>build/\<close>) happen outside the script and are not
  part of the model: a build is the event of having been issued.
\<close>

datatype event =
    LogArgv argv
  | ConsoleLog "string list"
  | ConsoleError string
  | CopyFile path path
  | EsbuildBuild build_options
  | CreateProgram "string list" compiler_options
  | ProgramEmit "string list" compiler_options

record world =
  fs :: "path \<rightharpoonup> string"
  trace :: "event list"

definition emit_event :: "world \<Rightarrow> event \<Rightarrow> world" where
  "emit_event w ev = w\<lparr>trace := trace w @ [ev]\<rparr>"

definition console_log :: "world \<Rightarrow> string list \<Rightarrow> world" where
  "console_log w args = emit_event w (ConsoleLog args)"

definition console_error :: "world \<Rightarrow> string \<Rightarrow> world" where
  "console_error w err = emit_event w (ConsoleError err)"

text \<open>\<^verbatim>\<open>fs.existsSync(p)\<close>.\<close>

definition existsSync :: "env \<Rightarrow> world \<Rightarrow> fpath \<Rightarrow> bool" where
  "existsSync e w p = (fs w (fs_key (cwd e) p) \<noteq> None)"

text \<open>
  \<^verbatim>\<open>fs.copyFileSync(src, dest)\<close>: throws when the source does not exist, otherwise
  \<open>dest\<close> holds the source's content, created or overwritten. The exception is the value
  \<open>Inl\<close>, with the world as the throw leaves it. The disk holds files only; what else
  can fail in the call (permissions, a target that is a directory) is not modelled.
\<close>

definition copyFileSync :: "env \<Rightarrow> fpath \<Rightarrow> fpath \<Rightarrow> world \<Rightarrow> (error \<times> world) + world" where
  "copyFileSync e src dest w =
     (case fs w (fs_key (cwd e) src) of
        None \<Rightarrow> Inl (MissingSharedFileError (fs_key (cwd e) src), w)
      | Some content \<Rightarrow>
          Inr (emit_event (w\<lparr>fs := (fs w)(fs_key (cwd e) dest \<mapsto> content)\<rparr>)
                 (CopyFile (fs_key (cwd e) src) (fs_key (cwd e) dest))))"

subsection \<open>Declaration emission\<close>

text \<open>A number as a template literal prints it: in decimal.\<close>

fun show_nat :: "nat \<Rightarrow> string" where
  "show_nat n =
     (if n < 10 then [''0123456789'' ! n]
      else show_nat (n div 10) @ [''0123456789'' ! (n mod 10)])"

declare show_nat.simps [simp del]

text \<open>Reading a decimal numeral back, to say what \<open>show_nat\<close> prints.\<close>

definition digit_value :: "char \<Rightarrow> nat" where
  "digit_value c = of_char c - 48"

definition read_nat :: "string \<Rightarrow> nat" where
  "read_nat s = foldl (\<lambda>acc c. 10 * acc + digit_value c) 0 s"

definition compilerOptions :: "fpath \<Rightarrow> compiler_options" where
  "compilerOptions outdir =
     \<lparr> co_declaration = True,
       co_emitDeclarationOnly = True,
       co_skipLibCheck = True,
       co_module = ''commonjs'',
       co_target = ''es2015'',
       co_outDir = outdir,
       co_downlevelIteration = True,
       co_esModuleInterop = True,
       co_experimentalDecorators = True \<rparr>"

text \<open>The line \<^verbatim>\<open>allDiagnostics.forEach\<close> prints for one diagnostic.\<close>

definition diagnostic_line :: "env \<Rightarrow> diagnostic \<Rightarrow> string" where
  "diagnostic_line e d =
     (case diag_file d of
        Some file \<Rightarrow>
          (case getLineAndCharacterOfPosition e file (diag_start d) of
             (line, character) \<Rightarrow>
               (let message = flattenDiagnosticMessageText e (diag_messageText d) [CHR 0x0A]
                in fileName file @ '' ('' @ show_nat (line + 1) @ '','' @ show_nat (character + 1)
                   @ ''): '' @ message))
      | None \<Rightarrow> flattenDiagnosticMessageText e (diag_messageText d) [CHR 0x0A])"

text \<open>
  \<^verbatim>\<open>emitTSDeclaration\<close>, the closure of one package: log, create the program, emit,
  then collect the pre-emit diagnostics and the emit result's, and print each.
\<close>

definition emitTSDeclaration :: "env \<Rightarrow> string \<Rightarrow> string list \<Rightarrow> fpath \<Rightarrow> world \<Rightarrow> world" where
  "emitTSDeclaration e name entryPoints outdir w =
     (let w1 = console_log w [''Generating .d.ts files for...'', name];
          options = compilerOptions outdir;
          w2 = emit_event w1 (CreateProgram entryPoints options);
          w3 = emit_event w2 (ProgramEmit entryPoints options);
          allDiagnostics = getPreEmitDiagnostics e (fs w3) entryPoints options
                           @ emit_diagnostics e (fs w3) entryPoints options
      in foldl (\<lambda>w' d. console_log w' [diagnostic_line e d]) w3 allDiagnostics)"

subsection \<open>The bundler calls and the rebuild hook\<close>

definition cjs_options :: "argv \<Rightarrow> string list \<Rightarrow> fpath \<Rightarrow> build_options" where
  "cjs_options a entryPoints outdir =
     \<lparr> bo_entryPoints = entryPoints,
       bo_outdir = outdir,
       bo_format = ''cjs'',
       bo_sourcemap = ''external'',
       bo_platform = ''node'',
       bo_outExtension = [],
       bo_watch = WatchFlag (argv_watch a) \<rparr>"

text \<open>\<^verbatim>\<open>watch: argv.watch && { onRebuild }\<close>: the flag when it is false, the hook otherwise.\<close>

definition esm_options :: "argv \<Rightarrow> string \<Rightarrow> string list \<Rightarrow> fpath \<Rightarrow> build_options" where
  "esm_options a name entryPoints outdir =
     \<lparr> bo_entryPoints = entryPoints,
       bo_outdir = outdir,
       bo_format = ''esm'',
       bo_sourcemap = ''external'',
       bo_platform = ''node'',
       bo_outExtension = [(''.js'', ''.mjs'')],
       bo_watch = (if argv_watch a then WatchOnRebuild name entryPoints outdir
                   else WatchFlag (argv_watch a)) \<rparr>"

text \<open>
  \<^verbatim>\<open>onRebuild(err, result)\<close> of the package whose closure it is: an error is printed and
  nothing else happens; otherwise the declarations are emitted again.
\<close>

definition onRebuild ::
  "env \<Rightarrow> string \<Rightarrow> string list \<Rightarrow> fpath \<Rightarrow> string option \<Rightarrow> world \<Rightarrow> world" where
  "onRebuild e name entryPoints outdir err w =
     (case err of
        Some x \<Rightarrow> console_error w x
      | None \<Rightarrow> emitTSDeclaration e name entryPoints outdir w)"

text \<open>The bundler's side of a rebuild: it calls the hook its \<^verbatim>\<open>watch\<close> option holds, if any.\<close>

fun rebuild :: "env \<Rightarrow> watch_option \<Rightarrow> string option \<Rightarrow> world \<Rightarrow> world" where
  "rebuild e (WatchOnRebuild name entryPoints outdir) err w = onRebuild e name entryPoints outdir err w"
| "rebuild e (WatchFlag b) err w = w"

subsection \<open>The per-package callback and \<^verbatim>\<open>main\<close>\<close>

text \<open>Lines 52 to 56: the shared files are copied when \<^verbatim>\<open>README.md\<close> is not there.\<close>

definition copy_shared_files :: "env \<Rightarrow> path \<Rightarrow> world \<Rightarrow> (error \<times> world) + world" where
  "copy_shared_files e basePath w =
     (if \<not> existsSync e w (path_join basePath [''README.md'']) then
        (case copyFileSync e (Absolute (path_resolve (cwd e) (Absolute (dirname e)) [''README.md'']))
                (path_join basePath [''README.md'']) w of
           Inl err \<Rightarrow> Inl err
         | Inr w1 \<Rightarrow>
             copyFileSync e (Absolute (path_resolve (cwd e) (Absolute (dirname e)) [''LICENSE'']))
               (path_join basePath [''LICENSE'']) w1)
      else Inr w)"

text \<open>Lines 59 and 60: the pattern handed to \<^verbatim>\<open>glob.sync\<close>.\<close>

definition entry_pattern :: "env \<Rightarrow> path \<Rightarrow> string" where
  "entry_pattern e basePath =
     replace_backslashes
       (path_string (drive e) (sep e)
          (path_resolve (cwd e) (Relative basePath) [''src'', ''**'', ''**.ts'']))"

text \<open>The callback of \<^verbatim>\<open>packages.map\<close> in \<^verbatim>\<open>main\<close>, for one package.\<close>

definition build_package :: "env \<Rightarrow> argv \<Rightarrow> package \<Rightarrow> world \<Rightarrow> (error \<times> world) + world" where
  "build_package e a pkg w =
     (let basePath = path_relative (dirname e) (pkg_location pkg) in
      if truthy (pkg_scripts_build pkg) then
        Inr (console_log w [pkg_name pkg, ''has custom build! skipping default build.''])
      else
        (case copy_shared_files e basePath w of
           Inl err \<Rightarrow> Inl err
         | Inr w1 \<Rightarrow>
             (let entryPoints = glob_sync e (fs w1) (entry_pattern e basePath);
                  outdir = path_join basePath [''build''];
                  w2 = emit_event w1 (EsbuildBuild (cjs_options a entryPoints outdir));
                  w3 = emit_event w2 (EsbuildBuild (esm_options a (pkg_name pkg) entryPoints outdir))
              in Inr (emitTSDeclaration e (pkg_name pkg) entryPoints outdir w3))))"

text \<open>\<^verbatim>\<open>packages.map(...)\<close>: one package after the other; an exception ends the loop.\<close>

fun build_packages :: "env \<Rightarrow> argv \<Rightarrow> package list \<Rightarrow> world \<Rightarrow> (error \<times> world) + world" where
  "build_packages e a [] w = Inr w"
| "build_packages e a (pkg # pkgs) w =
     (case build_package e a pkg w of
        Inl err \<Rightarrow> Inl err
      | Inr w' \<Rightarrow> build_packages e a pkgs w')"

definition main :: "env \<Rightarrow> argv \<Rightarrow> world \<Rightarrow> (error \<times> world) + world" where
  "main e a w =
     (let w0 = emit_event w (LogArgv a) in
      case getSortedPackages e (argv_scope a) (argv_ignore a) of
        Inl err \<Rightarrow> Inl (err, w0)
      | Inr packages \<Rightarrow> build_packages e a packages w0)"

subsection \<open>Names for the statements\<close>

text \<open>
  The callback's \<^verbatim>\<open>basePath\<close>, \<^verbatim>\<open>entryPoints\<close> and \<^verbatim>\<open>outdir\<close> of a package,
  and the files the copy step reads and writes, as \<^verbatim>\<open>fs\<close> finds them.
\<close>

definition basePath_of :: "env \<Rightarrow> package \<Rightarrow> path" where
  "basePath_of e pkg = path_relative (dirname e) (pkg_location pkg)"

definition entryPoints_of :: "env \<Rightarrow> package \<Rightarrow> world \<Rightarrow> string list" where
  "entryPoints_of e pkg w = glob_sync e (fs w) (entry_pattern e (basePath_of e pkg))"

definition outdir_of :: "env \<Rightarrow> package \<Rightarrow> fpath" where
  "outdir_of e pkg = path_join (basePath_of e pkg) [''build'']"

text \<open>\<^verbatim>\<open>path.join(basePath, name)\<close> on disk.\<close>

definition package_file :: "env \<Rightarrow> package \<Rightarrow> string \<Rightarrow> path" where
  "package_file e pkg name = fs_key (cwd e) (path_join (basePath_of e pkg) [name])"

text \<open>\<^verbatim>\<open>path.resolve(__dirname, "README.md")\<close> and \<^verbatim>\<open>path.resolve(__dirname, "LICENSE")\<close> on disk.\<close>

definition root_readme :: "env \<Rightarrow> path" where
  "root_readme e =
     fs_key (cwd e) (Absolute (path_resolve (cwd e) (Absolute (dirname e)) [''README.md'']))"

definition root_license :: "env \<Rightarrow> path" where
  "root_license e =
     fs_key (cwd e) (Absolute (path_resolve (cwd e) (Absolute (dirname e)) [''LICENSE'']))"

text \<open>The directories the two pairs of files lie in.\<close>

definition base_dir :: "env \<Rightarrow> path \<Rightarrow> path" where
  "base_dir e basePath = fs_key (cwd e) (path_join basePath [])"

definition root_dir :: "env \<Rightarrow> path" where
  "root_dir e = normalize_onto True [] (normalize_onto True [] (dirname e))"

text \<open>The events that are a copy.\<close>

fun is_copy :: "event \<Rightarrow> bool" where
  "is_copy (CopyFile src dest) = True"
| "is_copy ev = False"

text \<open>
  The events of a package that is built, once the copy step has left the world \<open>w1\<close>:
  the two bundler calls, then what \<^verbatim>\<open>emitTSDeclaration\<close> does.
\<close>

definition build_events :: "env \<Rightarrow> argv \<Rightarrow> package \<Rightarrow> world \<Rightarrow> event list" where
  "build_events e a pkg w1 =
     [EsbuildBuild (cjs_options a (entryPoints_of e pkg w1) (outdir_of e pkg)),
      EsbuildBuild (esm_options a (pkg_name pkg) (entryPoints_of e pkg w1) (outdir_of e pkg)),
      ConsoleLog [''Generating .d.ts files for...'', pkg_name pkg],
      CreateProgram (entryPoints_of e pkg w1) (compilerOptions (outdir_of e pkg)),
      ProgramEmit (entryPoints_of e pkg w1) (compilerOptions (outdir_of e pkg))]
     @ map (\<lambda>d. ConsoleLog [diagnostic_line e d])
         (getPreEmitDiagnostics e (fs w1) (entryPoints_of e pkg w1) (compilerOptions (outdir_of e pkg))
          @ emit_diagnostics e (fs w1) (entryPoints_of e pkg w1) (compilerOptions (outdir_of e pkg)))"

text \<open>
  A segment that is a name (not \<^verbatim>\<open>.\<close>, \<^verbatim>\<open>..\<close> or empty), and a path made of
  names only, as \<^verbatim>\<open>__dirname\<close> and a package's \<^verbatim>\<open>location\<close> are.
\<close>

definition ordinary :: "string \<Rightarrow> bool" where
  "ordinary s = (s \<noteq> ''.'' \<and> s \<noteq> [] \<and> s \<noteq> ''..'')"

definition clean :: "path \<Rightarrow> bool" where
  "clean p = list_all ordinary p"

subsection \<open>A small workspace\<close>

text \<open>
  Four packages under \<^verbatim>\<open>/repo\<close>: \<^verbatim>\<open>core\<close>, \<^verbatim>\<open>server\<close> and \<^verbatim>\<open>tool\<close>, which
  depend on \<^verbatim>\<open>core\<close>, and a private one. \<^verbatim>\<open>tool\<close> has its own build script. The
  batcher puts the packages without dependencies first, which orders this workspace. Only
  \<^verbatim>\<open>server\<close> has a source file.
\<close>

definition core_pkg :: package where
  "core_pkg = \<lparr> pkg_name = ''core'', pkg_location = [''repo'', ''packages'', ''core''],
     pkg_private = False, pkg_scripts_build = JUndefined, pkg_dependencies = [] \<rparr>"

definition server_pkg :: package where
  "server_pkg = \<lparr> pkg_name = ''server'', pkg_location = [''repo'', ''packages'', ''server''],
     pkg_private = False, pkg_scripts_build = JUndefined, pkg_dependencies = [''core''] \<rparr>"

definition tool_pkg :: package where
  "tool_pkg = \<lparr> pkg_name = ''tool'', pkg_location = [''repo'', ''tools'', ''tool''],
     pkg_private = False, pkg_scripts_build = JStr ''tsc -b'', pkg_dependencies = [''core''] \<rparr>"

definition secret_pkg :: package where
  "secret_pkg = \<lparr> pkg_name = ''secret'', pkg_location = [''repo'', ''packages'', ''secret''],
     pkg_private = True, pkg_scripts_build = JUndefined, pkg_dependencies = [] \<rparr>"

definition example_batches :: "package list \<Rightarrow> error + package list list" where
  "example_batches ps =
     Inr [filter (\<lambda>p. pkg_dependencies p = []) ps, filter (\<lambda>p. pkg_dependencies p \<noteq> []) ps]"

definition example_diagnostic :: diagnostic where
  "example_diagnostic = \<lparr> diag_file = Some \<lparr> fileName = ''src/index.ts'' \<rparr>, diag_start = 40,
     diag_messageText = MessageString ''Cannot find name x.'' \<rparr>"

fun example_flatten :: "message_text \<Rightarrow> string \<Rightarrow> string" where
  "example_flatten (MessageString s) nl = s"
| "example_flatten (MessageChain s rest) nl = s"

definition example_env :: env where
  "example_env =
     \<lparr> dirname = [''repo''],
       cwd = [''repo''],
       drive = [],
       sep = CHR ''/'',
       getPackages = (\<lambda>root. Inr [server_pkg, tool_pkg, core_pkg, secret_pkg]),
       glob_valid = (\<lambda>pat. True),
       glob_match = (\<lambda>pat name. pat = name),
       batchPackages = example_batches,
       glob_sync = (\<lambda>files pat.
         if pat = ''/repo/packages/server/src/**/**.ts''
         then [''/repo/packages/server/src/index.ts''] else []),
       emit_diagnostics = (\<lambda>files entryPoints options. []),
       getPreEmitDiagnostics = (\<lambda>files entryPoints options. [example_diagnostic]),
       getLineAndCharacterOfPosition = (\<lambda>file pos. (pos div 20, pos mod 20)),
       flattenDiagnosticMessageText = example_flatten \<rparr>"

definition example_world :: world where
  "example_world =
     \<lparr> fs = [[''repo'', ''README.md''] \<mapsto> ''# repo'', [''repo'', ''LICENSE''] \<mapsto> ''MIT''],
       trace = [] \<rparr>"

definition example_argv :: argv where
  "example_argv = \<lparr> argv_scope = None, argv_ignore = None, argv_watch = True \<rparr>"

text \<open>
  Three more disks: \<^verbatim>\<open>core\<close> with a licence of its own and no readme, the root
  without its licence, and \<^verbatim>\<open>core\<close> with a readme and no licence.
\<close>

definition license_world :: world where
  "license_world =
     \<lparr> fs = [[''repo'', ''README.md''] \<mapsto> ''# repo'', [''repo'', ''LICENSE''] \<mapsto> ''MIT'',
              [''repo'', ''packages'', ''core'', ''LICENSE''] \<mapsto> ''Apache-2.0''],
       trace = [] \<rparr>"

definition no_license_world :: world where
  "no_license_world = \<lparr> fs = [[''repo'', ''README.md''] \<mapsto> ''# repo''], trace = [] \<rparr>"

definition readme_world :: world where
  "readme_world =
     \<lparr> fs = [[''repo'', ''README.md''] \<mapsto> ''# repo'', [''repo'', ''LICENSE''] \<mapsto> ''MIT'',
              [''repo'', ''packages'', ''core'', ''README.md''] \<mapsto> ''# core''],
       trace = [] \<rparr>"

text \<open>The same workspace with a compiler that also reports a diagnostic without a file.\<close>

definition global_diagnostic :: diagnostic where
  "global_diagnostic = \<lparr> diag_file = None, diag_start = 0,
     diag_messageText = MessageString ''Unknown compiler option.'' \<rparr>"

definition diagnosing_env :: env where
  "diagnosing_env = example_env
     \<lparr> emit_diagnostics := (\<lambda>files entryPoints options. [global_diagnostic]) \<rparr>"





section \<open>Properties\<close>

subsection \<open>Flattening the batches\<close>

lemma foldl_concat_onto:
  "foldl (\<lambda>arr batch. arr @ batch) acc batches = acc @ concat batches"
  by (induction batches arbitrary: acc) simp_all

lemma flatten_batches: "foldl (\<lambda>arr batch. arr @ batch) [] batches = concat batches"
  by (simp add: foldl_concat_onto)

lemma concat_nth_batch:
  "i < length (concat bs) \<Longrightarrow>
   \<exists>k < length bs. concat bs ! i \<in> set (bs ! k) \<and> length (concat (take k bs)) \<le> i"
proof (induction bs arbitrary: i)
  case Nil
  then show ?case by simp
next
  case (Cons b bs)
  show ?case
  proof (cases "i < length b")
    case True
    then have "concat (b # bs) ! i \<in> set ((b # bs) ! 0)"
      by (simp add: nth_append)
    then show ?thesis by (intro exI [of _ 0]) simp
  next
    case False
    with Cons.prems have "i - length b < length (concat bs)" by simp
    from Cons.IH [OF this] obtain k where k: "k < length bs"
      "concat bs ! (i - length b) \<in> set (bs ! k)"
      "length (concat (take k bs)) \<le> i - length b" by blast
    with False show ?thesis
      by (intro exI [of _ "Suc k"]) (simp add: nth_append)
  qed
qed

lemma concat_take_prefix:
  "concat (take k bs) = take (length (concat (take k bs))) (concat bs)"
proof -
  have "concat bs = concat (take k bs) @ concat (drop k bs)"
    by (metis append_take_drop_id concat_append)
  then show ?thesis by simp
qed

text \<open>
  Batches that are ordered and disjoint flatten to an ordered sequence: the package at
  \<open>i\<close> sits in some batch \<open>k\<close> that starts at or before \<open>i\<close>, and what it depends on
  lies in the batches before \<open>k\<close>, hence at a position before \<open>i\<close>.
\<close>

lemma batches_ordered_flat:
  assumes ord: "batches_ordered bs" and dist: "distinct (concat bs)"
  shows "dependency_ordered (concat bs)"
  unfolding dependency_ordered_def
proof (intro ballI impI)
  fix i j
  assume i: "i \<in> set [0..<length (concat bs)]" and j: "j \<in> set [0..<length (concat bs)]"
    and dep: "depends_on (concat bs ! i) (concat bs ! j)"
  from i have i': "i < length (concat bs)" by simp
  from j have j': "j < length (concat bs)" by simp
  from concat_nth_batch [OF i'] obtain k where k: "k < length bs"
    "concat bs ! i \<in> set (bs ! k)" "length (concat (take k bs)) \<le> i" by blast
  have "concat bs ! j \<in> set (concat bs)" using j' by (rule nth_mem)
  with ord k dep have "concat bs ! j \<in> set (concat (take k bs))"
    unfolding batches_ordered_def by (simp del: set_concat)
  then have "concat bs ! j \<in> set (take (length (concat (take k bs))) (concat bs))"
    using concat_take_prefix [of k bs] by simp
  then obtain m where m: "m < length (concat (take k bs))" "m < length (concat bs)"
    "concat bs ! m = concat bs ! j"
    by (auto simp: in_set_conv_nth)
  with dist j' have "m = j" by (simp add: nth_eq_iff_index_eq)
  with m k show "j \<le> i" by simp
qed

lemmas example_defs = example_env_def core_pkg_def server_pkg_def tool_pkg_def secret_pkg_def
  example_batches_def

subsection \<open>The ordered package sequence\<close>

text \<open>
  C1. The sequence \<^verbatim>\<open>getSortedPackages\<close> returns is dependency-ordered: whenever the
  package at one position depends on the package at another, the latter is at or before
  the former. The script's part is the flattening; the batches come from lerna, whose
  contract (a partition into batches, each depending only on earlier ones) is the
  hypothesis.
\<close>

theorem getSortedPackages_dependency_ordered:
  assumes "getPackages e (dirname e) = Inr packages"
    and "filterPackages e packages scope ignore False = Inr filtered"
    and "batchPackages e filtered = Inr batches"
    and "batches_partition filtered batches"
    and "batches_ordered batches"
  shows "getSortedPackages e scope ignore = Inr (concat batches)
         \<and> dependency_ordered (concat batches)"
  using assms batches_ordered_flat [of batches]
  by (simp add: getSortedPackages_def flatten_batches batches_partition_def)

theorem getSortedPackages_dependency_ordered_witness:
  "getSortedPackages example_env None None = Inr [core_pkg, server_pkg, tool_pkg]
   \<and> dependency_ordered [core_pkg, server_pkg, tool_pkg]"
proof -
  let ?packages = "[server_pkg, tool_pkg, core_pkg, secret_pkg]"
  let ?filtered = "[server_pkg, tool_pkg, core_pkg]"
  let ?batches = "[[core_pkg], [server_pkg, tool_pkg]]"
  have 1: "getPackages example_env (dirname example_env) = Inr ?packages"
    by (simp add: example_env_def)
  have 2: "filterPackages example_env ?packages None None False = Inr ?filtered"
    by (simp add: filterPackages_def keeps_def matches_def patterns_of_def example_defs)
  have 3: "batchPackages example_env ?filtered = Inr ?batches"
    by (simp add: example_defs)
  have 4: "batches_partition ?filtered ?batches"
    by (auto simp add: batches_partition_def example_defs)
  have 5: "batches_ordered ?batches"
    by (simp add: batches_ordered_def depends_on_def example_defs upt_rec)
  from getSortedPackages_dependency_ordered [OF 1 2 3 4 5] show ?thesis by simp
qed

text \<open>
  C4. The packages the pipeline processes are exactly the discovered ones that match the
  scope (or any, when no scope is given), do not match the ignore patterns and are not
  private: the script asks the filter to leave private packages out, and flattening the
  batches neither drops nor adds a package.
\<close>

theorem getSortedPackages_keeps_exactly:
  assumes "getPackages e (dirname e) = Inr packages"
    and "list_all (glob_valid e) (patterns_of scope @ patterns_of ignore)"
    and "batchPackages e (filter (keeps e scope ignore False) packages) = Inr batches"
    and "batches_partition (filter (keeps e scope ignore False) packages) batches"
  shows "getSortedPackages e scope ignore = Inr (concat batches)
         \<and> (\<forall>p. p \<in> set (concat batches) \<longleftrightarrow>
                  p \<in> set packages \<and> (scope = None \<or> matches e scope p)
                  \<and> \<not> matches e ignore p \<and> \<not> pkg_private p)"
proof -
  from assms have "getSortedPackages e scope ignore = Inr (concat batches)"
    by (simp add: getSortedPackages_def filterPackages_def flatten_batches)
  moreover from assms(4)
  have "set (concat batches) = set (filter (keeps e scope ignore False) packages)"
    by (simp add: batches_partition_def)
  ultimately show ?thesis by (auto simp: keeps_def)
qed

theorem getSortedPackages_keeps_exactly_witness:
  "getSortedPackages example_env (Some [''server'', ''core'', ''secret'']) (Some [''core''])
     = Inr [server_pkg]
   \<and> (\<forall>p. p \<in> set [server_pkg] \<longleftrightarrow>
          p \<in> set [server_pkg, tool_pkg, core_pkg, secret_pkg]
          \<and> (Some [''server'', ''core'', ''secret''] = (None :: string list option)
              \<or> matches example_env (Some [''server'', ''core'', ''secret'']) p)
          \<and> \<not> matches example_env (Some [''core'']) p \<and> \<not> pkg_private p)"
proof -
  let ?scope = "Some [''server'', ''core'', ''secret'']"
  let ?ignore = "Some [''core'']"
  let ?packages = "[server_pkg, tool_pkg, core_pkg, secret_pkg]"
  have 1: "getPackages example_env (dirname example_env) = Inr ?packages"
    by (simp add: example_env_def)
  have 2: "list_all (glob_valid example_env) (patterns_of ?scope @ patterns_of ?ignore)"
    by (simp add: example_env_def patterns_of_def)
  have f: "filter (keeps example_env ?scope ?ignore False) ?packages = [server_pkg]"
    by (simp add: keeps_def matches_def patterns_of_def example_defs)
  have 3: "batchPackages example_env (filter (keeps example_env ?scope ?ignore False) ?packages)
           = Inr [[], [server_pkg]]"
    unfolding f by (simp add: example_defs)
  have 4: "batches_partition (filter (keeps example_env ?scope ?ignore False) ?packages)
             [[], [server_pkg]]"
    unfolding f by (simp add: batches_partition_def)
  from getSortedPackages_keeps_exactly [OF 1 2 3 4] show ?thesis by simp
qed

subsection \<open>The trace and the file system\<close>

lemma fs_emit_event [simp]: "fs (emit_event w ev) = fs w"
  by (simp add: emit_event_def)

lemma trace_emit_event [simp]: "trace (emit_event w ev) = trace w @ [ev]"
  by (simp add: emit_event_def)

lemma print_diagnostics:
  "foldl (\<lambda>w' d. console_log w' [f d]) w ds
   = w\<lparr>trace := trace w @ map (\<lambda>d. ConsoleLog [f d]) ds\<rparr>"
  by (induction ds arbitrary: w) (simp_all add: console_log_def emit_event_def)

lemma emitTSDeclaration_eq:
  "emitTSDeclaration e name entryPoints outdir w =
     w\<lparr>trace := trace w
        @ [ConsoleLog [''Generating .d.ts files for...'', name],
           CreateProgram entryPoints (compilerOptions outdir),
           ProgramEmit entryPoints (compilerOptions outdir)]
        @ map (\<lambda>d. ConsoleLog [diagnostic_line e d])
            (getPreEmitDiagnostics e (fs w) entryPoints (compilerOptions outdir)
             @ emit_diagnostics e (fs w) entryPoints (compilerOptions outdir))\<rparr>"
  unfolding emitTSDeclaration_def Let_def print_diagnostics
  by (simp add: console_log_def emit_event_def)

lemma fs_emitTSDeclaration [simp]: "fs (emitTSDeclaration e name entryPoints outdir w) = fs w"
  by (simp add: emitTSDeclaration_eq)

subsection \<open>Where the files are\<close>

text \<open>An ordinary last segment stays the last segment.\<close>

lemma normalize_onto_snoc:
  "s \<noteq> ''.'' \<Longrightarrow> s \<noteq> [] \<Longrightarrow> s \<noteq> ''..'' \<Longrightarrow>
   normalize_onto ab acc (xs @ [s]) = normalize_onto ab acc xs @ [s]"
  by (induction xs arbitrary: acc) (auto split: list.splits)

lemma fs_key_join:
  "s \<noteq> ''.'' \<Longrightarrow> s \<noteq> [] \<Longrightarrow> s \<noteq> ''..'' \<Longrightarrow>
   fs_key (cwd e) (path_join basePath [s]) = base_dir e basePath @ [s]"
proof -
  assume s: "s \<noteq> ''.''" "s \<noteq> []" "s \<noteq> ''..''"
  have "normalize_onto True [] (cwd e @ normalize_onto False [] basePath @ [s])
        = normalize_onto True [] ((cwd e @ normalize_onto False [] basePath) @ [s])"
    by simp
  also have "\<dots> = normalize_onto True [] (cwd e @ normalize_onto False [] basePath) @ [s]"
    using s by (rule normalize_onto_snoc)
  finally show ?thesis
    using s by (simp add: fs_key_def path_join_def base_dir_def normalize_onto_snoc)
qed

lemma package_file_dir:
  "s \<noteq> ''.'' \<Longrightarrow> s \<noteq> [] \<Longrightarrow> s \<noteq> ''..'' \<Longrightarrow>
   package_file e pkg s = base_dir e (basePath_of e pkg) @ [s]"
  by (simp add: package_file_def fs_key_join)

lemma package_readme: "package_file e pkg ''README.md'' = base_dir e (basePath_of e pkg) @ [''README.md'']"
  by (rule package_file_dir) simp_all

lemma package_license: "package_file e pkg ''LICENSE'' = base_dir e (basePath_of e pkg) @ [''LICENSE'']"
  by (rule package_file_dir) simp_all

lemma existsSync_readme:
  "existsSync e w (path_join (basePath_of e pkg) [''README.md''])
   \<longleftrightarrow> fs w (base_dir e (basePath_of e pkg) @ [''README.md'']) \<noteq> None"
  by (simp add: existsSync_def package_readme [symmetric] package_file_def)

lemma root_readme_dir: "root_readme e = root_dir e @ [''README.md'']"
  by (simp add: root_readme_def root_dir_def fs_key_def normalize_onto_snoc)

lemma root_license_dir: "root_license e = root_dir e @ [''LICENSE'']"
  by (simp add: root_license_def root_dir_def fs_key_def normalize_onto_snoc)

lemma root_readme_last: "\<exists>d. root_readme e = d @ [''README.md'']"
  by (simp add: root_readme_def fs_key_def normalize_onto_snoc)

lemma root_license_last: "\<exists>d. root_license e = d @ [''LICENSE'']"
  by (simp add: root_license_def fs_key_def normalize_onto_snoc)

subsection \<open>Run from the workspace root\<close>

text \<open>
  \<^verbatim>\<open>basePath\<close> is relative to \<^verbatim>\<open>__dirname\<close>, and \<^verbatim>\<open>fs\<close> and \<^verbatim>\<open>path.resolve\<close>
  take relative paths from the working directory. When the two are the same directory,
  \<^verbatim>\<open>basePath\<close> leads to the package's own directory.
\<close>

lemma normalize_onto_append:
  "normalize_onto ab acc (xs @ ys) = normalize_onto ab (rev (normalize_onto ab acc xs)) ys"
  by (induction xs arbitrary: acc) (auto split: list.splits)

lemma normalize_onto_clean:
  "clean xs \<Longrightarrow> normalize_onto ab acc xs = rev acc @ xs"
  by (induction xs arbitrary: acc) (auto simp: clean_def ordinary_def)

lemma normalize_onto_pop:
  "clean ys \<Longrightarrow>
   normalize_onto ab (ys @ acc) (replicate (length ys) ''..'' @ zs) = normalize_onto ab acc zs"
  by (induction ys arbitrary: acc) (auto simp: clean_def ordinary_def)

lemma clean_rev: "clean (rev xs) = clean xs"
  by (simp add: clean_def)

lemma normalize_onto_up:
  assumes "clean xs"
  shows "normalize_onto ab acc (xs @ replicate (length xs) ''..'' @ zs) = normalize_onto ab acc zs"
proof -
  have "normalize_onto ab acc (xs @ replicate (length xs) ''..'' @ zs)
        = normalize_onto ab (rev xs @ acc) (replicate (length (rev xs)) ''..'' @ zs)"
    using assms by (simp add: normalize_onto_append normalize_onto_clean)
  also have "\<dots> = normalize_onto ab acc zs"
    using assms by (intro normalize_onto_pop) (simp add: clean_rev)
  finally show ?thesis .
qed

lemma resolve_relative:
  "clean d \<Longrightarrow> clean l \<Longrightarrow> normalize_onto True acc (d @ path_relative d l) = rev acc @ l"
proof (induction d l arbitrary: acc rule: path_relative.induct)
  case (1 a as b bs)
  show ?case
  proof (cases "a = b")
    case True
    with 1 show ?thesis by (auto simp: clean_def ordinary_def)
  next
    case False
    then have "path_relative (a # as) (b # bs) = replicate (length (a # as)) ''..'' @ (b # bs)"
      by simp
    then have "normalize_onto True acc ((a # as) @ path_relative (a # as) (b # bs))
        = normalize_onto True acc ((a # as) @ replicate (length (a # as)) ''..'' @ (b # bs))"
      by (simp only:)
    also have "\<dots> = normalize_onto True acc (b # bs)"
      using "1.prems"(1) by (rule normalize_onto_up)
    also have "\<dots> = rev acc @ b # bs"
      using "1.prems"(2) by (rule normalize_onto_clean)
    finally show ?thesis .
  qed
next
  case (2 as)
  with normalize_onto_up [of as True acc "[]"] show ?case by simp
next
  case 3
  then show ?case by (simp add: normalize_onto_clean del: normalize_onto.simps)
qed

text \<open>Normalising a relative path before resolving it changes nothing.\<close>

lemma normalize_onto_relative_first:
  "\<forall>t \<in> set acc'. t \<noteq> ''.'' \<and> t \<noteq> [] \<Longrightarrow>
   normalize_onto True acc (normalize_onto False acc' p) = normalize_onto True acc (rev acc' @ p)"
proof (induction p arbitrary: acc')
  case Nil
  then show ?case by simp
next
  case (Cons s ss)
  let ?N = "normalize_onto True"
  show ?case
  proof (cases "s = ''.'' \<or> s = []")
    case True
    have "?N acc (rev acc' @ s # ss) = ?N (rev (?N acc (rev acc'))) (s # ss)"
      by (rule normalize_onto_append)
    also have "\<dots> = ?N (rev (?N acc (rev acc'))) ss" using True by auto
    also have "\<dots> = ?N acc (rev acc' @ ss)" by (rule normalize_onto_append [symmetric])
    finally show ?thesis using True Cons by auto
  next
    case False
    note ns = this
    show ?thesis
    proof (cases "s = ''..''")
      case False
      with ns Cons.IH [of "s # acc'"] Cons.prems show ?thesis by auto
    next
      case True
      show ?thesis
      proof (cases acc')
        case Nil
        with True Cons.IH [of "[''..'']"] show ?thesis by simp
      next
        case acc': (Cons t ts)
        show ?thesis
        proof (cases "t = ''..''")
          case True
          have "\<forall>u \<in> set (''..'' # acc'). u \<noteq> ''.'' \<and> u \<noteq> []"
            using Cons.prems by simp
          from Cons.IH [OF this] True \<open>s = ''..''\<close> acc' show ?thesis by simp
        next
          case False
          have t: "t \<noteq> ''.''" "t \<noteq> []" using Cons.prems acc' by simp_all
          have "\<forall>u \<in> set ts. u \<noteq> ''.'' \<and> u \<noteq> []"
            using Cons.prems acc' by simp
          from Cons.IH [OF this]
          have "?N acc (normalize_onto False acc' (s # ss)) = ?N acc (rev ts @ ss)"
            using False \<open>s = ''..''\<close> acc' by simp
          also have "\<dots> = ?N (rev (?N acc (rev ts))) ss"
            by (rule normalize_onto_append)
          also have "\<dots> = ?N (rev (?N acc (rev ts))) (t # ''..'' # ss)"
            using False t by simp
          also have "\<dots> = ?N acc (rev ts @ t # ''..'' # ss)"
            by (rule normalize_onto_append [symmetric])
          finally show ?thesis using \<open>s = ''..''\<close> acc' by simp
        qed
      qed
    qed
  qed
qed

lemma package_file_location:
  assumes "cwd e = dirname e" and "clean (dirname e)" and "clean (pkg_location pkg)"
    and "ordinary s"
  shows "package_file e pkg s = pkg_location pkg @ [s]"
proof -
  let ?N = "normalize_onto True" and ?bp = "basePath_of e pkg"
  have "package_file e pkg s = ?N [] (cwd e @ normalize_onto False [] (?bp @ [s]))"
    by (simp add: package_file_def fs_key_def path_join_def)
  also have "\<dots> = ?N (rev (?N [] (cwd e))) (normalize_onto False [] (?bp @ [s]))"
    by (rule normalize_onto_append)
  also have "\<dots> = ?N (rev (?N [] (cwd e))) (rev [] @ ?bp @ [s])"
    by (rule normalize_onto_relative_first) simp
  also have "\<dots> = ?N [] (cwd e @ ?bp @ [s])"
    by (simp add: normalize_onto_append [symmetric])
  also have "\<dots> = ?N [] (cwd e @ ?bp) @ [s]"
    using assms(4) normalize_onto_snoc [of s True "[]" "cwd e @ ?bp"]
    by (simp add: ordinary_def)
  also have "?N [] (cwd e @ ?bp) = pkg_location pkg"
    using resolve_relative [OF assms(2,3), of "[]"] assms(1) by (simp add: basePath_of_def)
  finally show ?thesis .
qed

lemma root_files_location:
  assumes "clean (dirname e)"
  shows "root_readme e = dirname e @ [''README.md'']"
    and "root_license e = dirname e @ [''LICENSE'']"
  using assms
  by (simp_all add: root_readme_dir root_license_dir root_dir_def normalize_onto_clean)

lemma resolved_basePath_location:
  assumes "cwd e = dirname e" and "clean (dirname e)" and "clean (pkg_location pkg)"
  shows "path_resolve (cwd e) (Relative (basePath_of e pkg)) [] = pkg_location pkg"
  using resolve_relative [OF assms(2,3), of "[]"] assms(1) by (simp add: basePath_of_def)

subsection \<open>The copy step\<close>

text \<open>
  The step, case by case. The second copy reads the root's \<^verbatim>\<open>LICENSE\<close> after the first
  has written the package's \<^verbatim>\<open>README.md\<close>: two different files.
\<close>

lemma copy_shared_files_cases:
  "copy_shared_files e basePath w =
     (if fs w (base_dir e basePath @ [''README.md'']) \<noteq> None then Inr w
      else case fs w (root_readme e) of
        None \<Rightarrow> Inl (MissingSharedFileError (root_readme e), w)
      | Some r \<Rightarrow>
          (case fs w (root_license e) of
             None \<Rightarrow>
               Inl (MissingSharedFileError (root_license e),
                    w\<lparr>fs := (fs w)(base_dir e basePath @ [''README.md''] \<mapsto> r),
                      trace := trace w
                        @ [CopyFile (root_readme e) (base_dir e basePath @ [''README.md''])]\<rparr>)
           | Some l \<Rightarrow>
               Inr (w\<lparr>fs := (fs w)(base_dir e basePath @ [''README.md''] \<mapsto> r,
                                  base_dir e basePath @ [''LICENSE''] \<mapsto> l),
                      trace := trace w
                        @ [CopyFile (root_readme e) (base_dir e basePath @ [''README.md'']),
                           CopyFile (root_license e) (base_dir e basePath @ [''LICENSE''])]\<rparr>)))"
proof -
  obtain d where d: "root_license e = d @ [''LICENSE'']"
    using root_license_last by blast
  have ne: "root_license e \<noteq> base_dir e basePath @ [''README.md'']"
    unfolding d by simp
  have k1: "fs_key (cwd e) (path_join basePath [''README.md'']) = base_dir e basePath @ [''README.md'']"
    by (rule fs_key_join) simp_all
  have k2: "fs_key (cwd e) (path_join basePath [''LICENSE'']) = base_dir e basePath @ [''LICENSE'']"
    by (rule fs_key_join) simp_all
  show ?thesis
    unfolding copy_shared_files_def existsSync_def copyFileSync_def k1 k2
      root_readme_def [symmetric] root_license_def [symmetric]
    using ne by (auto simp: emit_event_def split: option.splits)
qed

text \<open>What a successful copy step leaves on disk.\<close>

lemma copy_shared_files_fs:
  assumes "copy_shared_files e basePath w = Inr w1"
  shows "(fs w (base_dir e basePath @ [''README.md'']) \<noteq> None \<and> fs w1 = fs w)
       \<or> (fs w (base_dir e basePath @ [''README.md'']) = None
          \<and> (\<exists>r l. fs w (root_readme e) = Some r \<and> fs w (root_license e) = Some l
                \<and> fs w1 = (fs w)(base_dir e basePath @ [''README.md''] \<mapsto> r,
                                base_dir e basePath @ [''LICENSE''] \<mapsto> l)))"
  using assms unfolding copy_shared_files_cases
  by (auto split: if_splits option.splits)

text \<open>A package that is built: the world the copy step left, and the build events after it.\<close>

lemma build_package_built:
  assumes "\<not> truthy (pkg_scripts_build pkg)"
    and "copy_shared_files e (basePath_of e pkg) w = Inr w1"
  shows "build_package e a pkg w = Inr (w1\<lparr>trace := trace w1 @ build_events e a pkg w1\<rparr>)"
  using assms
  by (simp add: build_package_def basePath_of_def [symmetric] Let_def emitTSDeclaration_eq
      build_events_def entryPoints_of_def outdir_of_def)

lemma build_package_copy_fails:
  assumes "\<not> truthy (pkg_scripts_build pkg)"
    and "copy_shared_files e (basePath_of e pkg) w = Inl err"
  shows "build_package e a pkg w = Inl err"
  using assms by (simp add: build_package_def basePath_of_def)

lemma no_copy_in_build_events: "filter is_copy (build_events e a pkg w1) = []"
  by (simp add: build_events_def filter_empty_conv)

lemma build_package_fs:
  assumes "build_package e a pkg w = Inr w'"
  shows "if truthy (pkg_scripts_build pkg) then fs w' = fs w
         else \<exists>w1. copy_shared_files e (basePath_of e pkg) w = Inr w1 \<and> fs w' = fs w1"
  using assms
  by (auto simp: build_package_def basePath_of_def Let_def console_log_def
      split: if_splits sum.splits)

lemma build_package_fs_cases:
  assumes "build_package e a pkg w = Inr w'"
  shows "fs w' = fs w
       \<or> (\<not> truthy (pkg_scripts_build pkg)
          \<and> fs w (base_dir e (basePath_of e pkg) @ [''README.md'']) = None
          \<and> (\<exists>r l. fs w (root_readme e) = Some r \<and> fs w (root_license e) = Some l
                \<and> fs w' = (fs w)(base_dir e (basePath_of e pkg) @ [''README.md''] \<mapsto> r,
                                base_dir e (basePath_of e pkg) @ [''LICENSE''] \<mapsto> l)))"
proof (cases "truthy (pkg_scripts_build pkg)")
  case True
  with build_package_fs [OF assms] show ?thesis by simp
next
  case False
  with build_package_fs [OF assms] obtain w1 where
    w1: "copy_shared_files e (basePath_of e pkg) w = Inr w1" "fs w' = fs w1" by auto
  from copy_shared_files_fs [OF w1(1)] w1(2) False show ?thesis by auto
qed

subsection \<open>The run\<close>

lemma build_packages_append:
  "build_packages e a (xs @ ys) w =
     (case build_packages e a xs w of Inl err \<Rightarrow> Inl err | Inr w' \<Rightarrow> build_packages e a ys w')"
  by (induction xs arbitrary: w) (simp_all split: sum.splits)

text \<open>A directory that has its \<^verbatim>\<open>README.md\<close> is left alone by every step.\<close>

lemma build_package_frame:
  assumes "build_package e a pkg w = Inr w'"
    and "fs w (d @ [''README.md'']) \<noteq> None"
  shows "fs w' (d @ [''README.md'']) = fs w (d @ [''README.md''])
         \<and> fs w' (d @ [''LICENSE'']) = fs w (d @ [''LICENSE''])"
  using build_package_fs_cases [OF assms(1)] assms(2) by auto

lemma build_packages_frame:
  assumes "build_packages e a pkgs w = Inr w'"
    and "fs w (d @ [''README.md'']) \<noteq> None"
  shows "fs w' (d @ [''README.md'']) = fs w (d @ [''README.md''])
         \<and> fs w' (d @ [''LICENSE'']) = fs w (d @ [''LICENSE''])"
  using assms
proof (induction pkgs arbitrary: w)
  case Nil
  then show ?case by simp
next
  case (Cons pkg pkgs)
  from Cons.prems(1) obtain w1 where w1: "build_package e a pkg w = Inr w1"
    "build_packages e a pkgs w1 = Inr w'"
    by (auto split: sum.splits)
  from build_package_frame [OF w1(1) Cons.prems(2)] Cons.IH [OF w1(2)] Cons.prems(2)
  show ?case by simp
qed

text \<open>The shared files at the workspace root are never changed.\<close>

lemma build_package_root:
  assumes "build_package e a pkg w = Inr w'"
  shows "fs w' (root_readme e) = fs w (root_readme e)
         \<and> fs w' (root_license e) = fs w (root_license e)"
proof (cases "fs w (root_readme e) = None")
  case True
  with build_package_fs_cases [OF assms] show ?thesis by auto
next
  case False
  with build_package_frame [OF assms, of "root_dir e"] show ?thesis
    by (simp add: root_readme_dir root_license_dir)
qed

lemma build_packages_root:
  assumes "build_packages e a pkgs w = Inr w'"
  shows "fs w' (root_readme e) = fs w (root_readme e)
         \<and> fs w' (root_license e) = fs w (root_license e)"
  using assms
proof (induction pkgs arbitrary: w)
  case Nil
  then show ?case by simp
next
  case (Cons pkg pkgs)
  from Cons.prems obtain w1 where w1: "build_package e a pkg w = Inr w1"
    "build_packages e a pkgs w1 = Inr w'"
    by (auto split: sum.splits)
  from build_package_root [OF w1(1)] Cons.IH [OF w1(2)] show ?case by simp
qed

text \<open>A \<^verbatim>\<open>README.md\<close> that appears is the root's, and the root's \<^verbatim>\<open>LICENSE\<close> is beside it.\<close>

lemma build_package_new:
  assumes "build_package e a pkg w = Inr w'"
    and "fs w (d @ [''README.md'']) = None"
    and "fs w' (d @ [''README.md'']) \<noteq> None"
  shows "fs w' (d @ [''README.md'']) = fs w (root_readme e)
         \<and> fs w' (d @ [''LICENSE'']) = fs w (root_license e)
         \<and> fs w (root_license e) \<noteq> None"
  using build_package_fs_cases [OF assms(1)] assms(2,3)
  by (auto split: if_splits)

lemma build_packages_new:
  assumes "build_packages e a pkgs w = Inr w'"
    and "fs w (d @ [''README.md'']) = None"
    and "fs w' (d @ [''README.md'']) \<noteq> None"
  shows "fs w' (d @ [''README.md'']) = fs w (root_readme e)
         \<and> fs w' (d @ [''LICENSE'']) = fs w (root_license e)
         \<and> fs w (root_license e) \<noteq> None"
  using assms
proof (induction pkgs arbitrary: w)
  case Nil
  then show ?case by simp
next
  case (Cons pkg pkgs)
  from Cons.prems(1) obtain w1 where w1: "build_package e a pkg w = Inr w1"
    "build_packages e a pkgs w1 = Inr w'"
    by (auto split: sum.splits)
  note root = build_package_root [OF w1(1)]
  show ?case
  proof (cases "fs w1 (d @ [''README.md'']) = None")
    case True
    from Cons.IH [OF w1(2) True Cons.prems(3)] root show ?thesis by simp
  next
    case False
    from build_package_new [OF w1(1) Cons.prems(2) False]
      build_packages_frame [OF w1(2) False]
    show ?thesis by simp
  qed
qed

text \<open>After its step, a package that is not skipped has a \<^verbatim>\<open>README.md\<close>.\<close>

lemma build_package_readme_present:
  assumes "build_package e a pkg w = Inr w'" and "\<not> truthy (pkg_scripts_build pkg)"
  shows "fs w' (base_dir e (basePath_of e pkg) @ [''README.md'']) \<noteq> None"
proof -
  from build_package_fs [OF assms(1)] assms(2) obtain w1 where
    w1: "copy_shared_files e (basePath_of e pkg) w = Inr w1" "fs w' = fs w1" by auto
  from copy_shared_files_fs [OF w1(1)] w1(2) show ?thesis by auto
qed

lemma build_packages_readme_present:
  assumes "build_packages e a pkgs w = Inr w'"
    and "pkg \<in> set pkgs" and "\<not> truthy (pkg_scripts_build pkg)"
  shows "fs w' (base_dir e (basePath_of e pkg) @ [''README.md'']) \<noteq> None"
  using assms(1,2)
proof (induction pkgs arbitrary: w)
  case Nil
  then show ?case by simp
next
  case (Cons p pkgs)
  from Cons.prems(1) obtain w1 where w1: "build_package e a p w = Inr w1"
    "build_packages e a pkgs w1 = Inr w'"
    by (auto split: sum.splits)
  show ?case
  proof (cases "p = pkg")
    case True
    with build_package_readme_present [OF w1(1)] assms(3)
    have "fs w1 (base_dir e (basePath_of e pkg) @ [''README.md'']) \<noteq> None" by simp
    with build_packages_frame [OF w1(2) this] show ?thesis by simp
  next
    case False
    with Cons.prems(2) have "pkg \<in> set pkgs" by simp
    from Cons.IH [OF w1(2) this] show ?thesis .
  qed
qed

text \<open>With both shared files at the root, no step fails and the run ends.\<close>

lemma build_package_succeeds:
  assumes "fs w (root_readme e) \<noteq> None" and "fs w (root_license e) \<noteq> None"
  shows "\<exists>w'. build_package e a pkg w = Inr w'"
proof (cases "truthy (pkg_scripts_build pkg)")
  case True
  then show ?thesis by (simp add: build_package_def)
next
  case False
  from assms have "\<exists>wc. copy_shared_files e (basePath_of e pkg) w = Inr wc"
    unfolding copy_shared_files_cases by (auto split: option.splits)
  then obtain wc where "copy_shared_files e (basePath_of e pkg) w = Inr wc" ..
  from build_package_built [OF False this] show ?thesis by blast
qed

lemma build_packages_succeeds:
  assumes "fs w (root_readme e) \<noteq> None" and "fs w (root_license e) \<noteq> None"
  shows "\<exists>w'. build_packages e a pkgs w = Inr w'"
  using assms
proof (induction pkgs arbitrary: w)
  case Nil
  then show ?case by simp
next
  case (Cons pkg pkgs)
  from build_package_succeeds [OF Cons.prems] obtain w1 where
    w1: "build_package e a pkg w = Inr w1" by blast
  from build_package_root [OF w1] Cons.prems
  have "fs w1 (root_readme e) \<noteq> None" "fs w1 (root_license e) \<noteq> None" by simp_all
  from Cons.IH [OF this] w1 show ?case by simp
qed

subsection \<open>The glob pattern\<close>






subsection \<open>The example workspace\<close>

lemmas example_paths = example_defs example_world_def example_argv_def basePath_of_def
  package_file_def fs_key_def path_join_def root_readme_def root_license_def existsSync_def

lemma example_sorted:
  "getSortedPackages example_env None None = Inr [core_pkg, server_pkg, tool_pkg]"
  by (simp add: getSortedPackages_def filterPackages_def keeps_def matches_def patterns_of_def
      example_defs)

subsection \<open>Skipping a package\<close>

text \<open>
  C2. A package whose \<^verbatim>\<open>scripts.build\<close> is non-empty (a non-empty string is truthy)
  is skipped: the callback prints the skip notice and does nothing else. No file is
  copied, no build is issued, no declaration is emitted, and the loop goes on to the next
  package with just that line added.
\<close>

theorem build_package_custom_build_skipped:
  assumes "truthy (pkg_scripts_build pkg)"
  shows "build_package e a pkg w
         = Inr (w\<lparr>trace := trace w
                   @ [ConsoleLog [pkg_name pkg, ''has custom build! skipping default build.'']]\<rparr>)
         \<and> build_packages e a (pkg # pkgs) w
           = build_packages e a pkgs
               (w\<lparr>trace := trace w
                   @ [ConsoleLog [pkg_name pkg, ''has custom build! skipping default build.'']]\<rparr>)"
  using assms by (simp add: build_package_def console_log_def emit_event_def)

theorem build_package_custom_build_skipped_witness:
  "truthy (pkg_scripts_build tool_pkg)
   \<and> build_package example_env example_argv tool_pkg example_world
     = Inr (example_world\<lparr>trace :=
              [ConsoleLog [''tool'', ''has custom build! skipping default build.'']]\<rparr>)"
proof -
  have h: "truthy (pkg_scripts_build tool_pkg)" by (simp add: tool_pkg_def)
  from build_package_custom_build_skipped [OF h, of example_env example_argv example_world "[]"]
  show ?thesis using h by (simp add: tool_pkg_def example_world_def)
qed

subsection \<open>The shared files\<close>

text \<open>
  C3, as the code has it. In a run that succeeds, the step of a package that is not
  skipped copies the root's \<^verbatim>\<open>README.md\<close> and \<^verbatim>\<open>LICENSE\<close> exactly when
  \<^verbatim>\<open>README.md\<close> does not exist at its \<^verbatim>\<open>basePath\<close>; whether \<^verbatim>\<open>LICENSE\<close> exists
  there is not looked at. When it copies, both files are there at the end of the run, with
  the content the root's files had at the start and still have.
\<close>

theorem shared_files_copied_iff_readme_absent:
  assumes "build_packages e a pre w = Inr w1"
    and "build_package e a pkg w1 = Inr w2"
    and "build_packages e a post w2 = Inr w'"
    and "\<not> truthy (pkg_scripts_build pkg)"
  shows "build_packages e a (pre @ pkg # post) w = Inr w'
     \<and> filter is_copy (drop (length (trace w1)) (trace w2))
       = (if existsSync e w1 (path_join (basePath_of e pkg) [''README.md'']) then []
          else [CopyFile (root_readme e) (package_file e pkg ''README.md''),
                CopyFile (root_license e) (package_file e pkg ''LICENSE'')])
     \<and> (\<not> existsSync e w1 (path_join (basePath_of e pkg) [''README.md'']) \<longrightarrow>
          fs w' (package_file e pkg ''README.md'') = fs w (root_readme e)
          \<and> fs w' (package_file e pkg ''LICENSE'') = fs w (root_license e)
          \<and> fs w (root_readme e) \<noteq> None \<and> fs w (root_license e) \<noteq> None
          \<and> fs w' (root_readme e) = fs w (root_readme e)
          \<and> fs w' (root_license e) = fs w (root_license e))"
proof (intro conjI impI)
  show "build_packages e a (pre @ pkg # post) w = Inr w'"
    using assms(1-3) by (simp add: build_packages_append)
next
  from build_package_fs [OF assms(2)] assms(4) obtain wc where
    wc: "copy_shared_files e (basePath_of e pkg) w1 = Inr wc"
    by auto
  from build_package_built [OF assms(4) wc, of a] assms(2)
  have w2: "w2 = wc\<lparr>trace := trace wc @ build_events e a pkg wc\<rparr>" by simp
  from wc show "filter is_copy (drop (length (trace w1)) (trace w2))
       = (if existsSync e w1 (path_join (basePath_of e pkg) [''README.md'']) then []
          else [CopyFile (root_readme e) (package_file e pkg ''README.md''),
                CopyFile (root_license e) (package_file e pkg ''LICENSE'')])"
    unfolding w2 copy_shared_files_cases existsSync_readme package_readme package_license
    by (auto simp: no_copy_in_build_events split: if_splits option.splits)
next
  assume absent: "\<not> existsSync e w1 (path_join (basePath_of e pkg) [''README.md''])"
  let ?d = "base_dir e (basePath_of e pkg)"
  from absent have none: "fs w1 (?d @ [''README.md'']) = None"
    by (simp add: existsSync_readme)
  from build_package_readme_present [OF assms(2,4)]
  have some: "fs w2 (?d @ [''README.md'']) \<noteq> None" .
  note new = build_package_new [OF assms(2) none some]
  note keep = build_packages_frame [OF assms(3) some]
  note r0 = build_packages_root [OF assms(1)]
  note r1 = build_package_root [OF assms(2)]
  note r2 = build_packages_root [OF assms(3)]
  show "fs w' (package_file e pkg ''README.md'') = fs w (root_readme e)"
    using new keep r0 by (simp add: package_readme)
  show "fs w' (package_file e pkg ''LICENSE'') = fs w (root_license e)"
    using new keep r0 by (simp add: package_license)
  show "fs w (root_readme e) \<noteq> None"
    using new some r0 by simp
  show "fs w (root_license e) \<noteq> None"
    using new r0 by simp
  show "fs w' (root_readme e) = fs w (root_readme e)"
    using r0 r1 r2 by simp
  show "fs w' (root_license e) = fs w (root_license e)"
    using r0 r1 r2 by simp
qed

theorem shared_files_copied_iff_readme_absent_witness:
  "\<not> truthy (pkg_scripts_build core_pkg)
   \<and> \<not> existsSync example_env example_world
         (path_join (basePath_of example_env core_pkg) [''README.md''])
   \<and> (\<exists>w2 w'. build_package example_env example_argv core_pkg example_world = Inr w2
        \<and> build_packages example_env example_argv [core_pkg, server_pkg, tool_pkg] example_world
          = Inr w'
        \<and> filter is_copy (trace w2)
          = [CopyFile [''repo'', ''README.md''] [''repo'', ''packages'', ''core'', ''README.md''],
             CopyFile [''repo'', ''LICENSE''] [''repo'', ''packages'', ''core'', ''LICENSE'']]
        \<and> fs w' [''repo'', ''packages'', ''core'', ''README.md''] = Some ''# repo''
        \<and> fs w' [''repo'', ''packages'', ''core'', ''LICENSE''] = Some ''MIT'')"
proof -
  let ?e = example_env and ?a = example_argv and ?w = example_world
  have r: "fs ?w (root_readme ?e) \<noteq> None" "fs ?w (root_license ?e) \<noteq> None"
    by (simp_all add: example_paths)
  have 1: "build_packages ?e ?a [] ?w = Inr ?w" by simp
  from build_package_succeeds [OF r] obtain w2 where
    2: "build_package ?e ?a core_pkg ?w = Inr w2" by blast
  from build_package_root [OF 2] r
  have "fs w2 (root_readme ?e) \<noteq> None" "fs w2 (root_license ?e) \<noteq> None" by simp_all
  from build_packages_succeeds [OF this] obtain w' where
    3: "build_packages ?e ?a [server_pkg, tool_pkg] w2 = Inr w'" by blast
  have 4: "\<not> truthy (pkg_scripts_build core_pkg)" by (simp add: core_pkg_def)
  have 5: "\<not> existsSync ?e ?w (path_join (basePath_of ?e core_pkg) [''README.md''])"
    by (simp add: example_paths)
  have k: "package_file ?e core_pkg ''README.md'' = [''repo'', ''packages'', ''core'', ''README.md'']"
    "package_file ?e core_pkg ''LICENSE'' = [''repo'', ''packages'', ''core'', ''LICENSE'']"
    "root_readme ?e = [''repo'', ''README.md'']" "root_license ?e = [''repo'', ''LICENSE'']"
    by (simp_all add: example_paths)
  have t: "trace ?w = []" by (simp add: example_world_def)
  have f: "fs ?w [''repo'', ''README.md''] = Some ''# repo''"
    "fs ?w [''repo'', ''LICENSE''] = Some ''MIT''"
    by (simp_all add: example_world_def)
  from shared_files_copied_iff_readme_absent [OF 1 2 3 4] 5
  have "build_packages ?e ?a [core_pkg, server_pkg, tool_pkg] ?w = Inr w'
     \<and> filter is_copy (trace w2)
       = [CopyFile [''repo'', ''README.md''] [''repo'', ''packages'', ''core'', ''README.md''],
          CopyFile [''repo'', ''LICENSE''] [''repo'', ''packages'', ''core'', ''LICENSE'']]
     \<and> fs w' [''repo'', ''packages'', ''core'', ''README.md''] = Some ''# repo''
     \<and> fs w' [''repo'', ''packages'', ''core'', ''LICENSE''] = Some ''MIT''"
    by (simp add: k t f)
  with 2 4 5 show ?thesis by blast
qed

text \<open>
  C3 as stated fails: \<^verbatim>\<open>core\<close> is not skipped and has a \<^verbatim>\<open>LICENSE\<close> and no
  \<^verbatim>\<open>README.md\<close>, so it is not true that neither exists, yet the copy step copies both
  files and the licence that was there is overwritten.
\<close>

theorem shared_files_copied_despite_license_counterexample:
  "\<not> truthy (pkg_scripts_build core_pkg)
   \<and> existsSync example_env license_world
       (path_join (basePath_of example_env core_pkg) [''LICENSE''])
   \<and> fs license_world [''repo'', ''packages'', ''core'', ''LICENSE''] = Some ''Apache-2.0''
   \<and> copy_shared_files example_env (basePath_of example_env core_pkg) license_world
     = Inr (license_world\<lparr>
         fs := (fs license_world)
                 ([''repo'', ''packages'', ''core'', ''README.md''] \<mapsto> ''# repo'',
                  [''repo'', ''packages'', ''core'', ''LICENSE''] \<mapsto> ''MIT''),
         trace :=
           [CopyFile [''repo'', ''README.md''] [''repo'', ''packages'', ''core'', ''README.md''],
            CopyFile [''repo'', ''LICENSE''] [''repo'', ''packages'', ''core'', ''LICENSE'']]\<rparr>)"
proof -
  have 1: "\<not> truthy (pkg_scripts_build core_pkg)" by (simp add: core_pkg_def)
  have 2: "existsSync example_env license_world
             (path_join (basePath_of example_env core_pkg) [''LICENSE''])"
    by (simp add: example_paths license_world_def)
  have 3: "fs license_world [''repo'', ''packages'', ''core'', ''LICENSE''] = Some ''Apache-2.0''"
    by (simp add: license_world_def)
  have 4: "copy_shared_files example_env (basePath_of example_env core_pkg) license_world
     = Inr (license_world\<lparr>
         fs := (fs license_world)
                 ([''repo'', ''packages'', ''core'', ''README.md''] \<mapsto> ''# repo'',
                  [''repo'', ''packages'', ''core'', ''LICENSE''] \<mapsto> ''MIT''),
         trace :=
           [CopyFile [''repo'', ''README.md''] [''repo'', ''packages'', ''core'', ''README.md''],
            CopyFile [''repo'', ''LICENSE''] [''repo'', ''packages'', ''core'', ''LICENSE'']]\<rparr>)"
    by (simp add: copy_shared_files_def copyFileSync_def emit_event_def example_paths
        license_world_def)
  from 1 2 3 4 show ?thesis by (intro conjI)
qed

text \<open>
  C10. For a package that is not skipped and has a \<^verbatim>\<open>README.md\<close>, the copy step
  writes nothing: it returns the world it was given, and the whole callback leaves the
  file system as it was and copies no file. A \<^verbatim>\<open>LICENSE\<close> that is missing stays
  missing.
\<close>

theorem readme_present_no_writes:
  assumes "\<not> truthy (pkg_scripts_build pkg)"
    and "existsSync e w (path_join (basePath_of e pkg) [''README.md''])"
  shows "copy_shared_files e (basePath_of e pkg) w = Inr w
         \<and> (\<exists>w'. build_package e a pkg w = Inr w' \<and> fs w' = fs w
                \<and> filter is_copy (drop (length (trace w)) (trace w')) = [])"
proof -
  from assms(2) have c: "copy_shared_files e (basePath_of e pkg) w = Inr w"
    by (simp add: copy_shared_files_cases existsSync_readme)
  from build_package_built [OF assms(1) c]
  show ?thesis using c by (simp add: no_copy_in_build_events)
qed

theorem readme_present_no_writes_witness:
  "\<not> truthy (pkg_scripts_build core_pkg)
   \<and> existsSync example_env readme_world (path_join (basePath_of example_env core_pkg) [''README.md''])
   \<and> fs readme_world (package_file example_env core_pkg ''LICENSE'') = None
   \<and> copy_shared_files example_env (basePath_of example_env core_pkg) readme_world = Inr readme_world
   \<and> (\<exists>w'. build_package example_env example_argv core_pkg readme_world = Inr w'
          \<and> fs w' = fs readme_world
          \<and> filter is_copy (drop (length (trace readme_world)) (trace w')) = [])"
proof -
  have 1: "\<not> truthy (pkg_scripts_build core_pkg)" by (simp add: core_pkg_def)
  have 2: "existsSync example_env readme_world
             (path_join (basePath_of example_env core_pkg) [''README.md''])"
    by (simp add: example_paths readme_world_def)
  have 3: "fs readme_world (package_file example_env core_pkg ''LICENSE'') = None"
    by (simp add: example_paths readme_world_def)
  from readme_present_no_writes [OF 1 2, of example_argv] 1 2 3 show ?thesis by simp
qed

text \<open>
  C8. When a copy is attempted and the root's \<^verbatim>\<open>README.md\<close> or \<^verbatim>\<open>LICENSE\<close> is
  missing, \<^verbatim>\<open>copyFileSync\<close> throws and the exception ends \<^verbatim>\<open>main\<close>: whatever packages
  follow, the run is the failure, and the trace ends with the failing package's copy step
  (nothing, or the one copy that went through).
\<close>

theorem missing_shared_file_aborts_run:
  assumes "getSortedPackages e (argv_scope a) (argv_ignore a) = Inr (pre @ pkg # post)"
    and "build_packages e a pre (emit_event w (LogArgv a)) = Inr w1"
    and "\<not> truthy (pkg_scripts_build pkg)"
    and "\<not> existsSync e w1 (path_join (basePath_of e pkg) [''README.md''])"
    and "fs w1 (root_readme e) = None \<or> fs w1 (root_license e) = None"
  shows "\<exists>p w2. main e a w = Inl (MissingSharedFileError p, w2)
           \<and> (p = root_readme e \<or> p = root_license e) \<and> fs w1 p = None
           \<and> (trace w2 = trace w1
              \<or> trace w2 = trace w1 @ [CopyFile (root_readme e) (package_file e pkg ''README.md'')])"
proof -
  from assms(4,5) obtain p w2 where
    c: "copy_shared_files e (basePath_of e pkg) w1 = Inl (MissingSharedFileError p, w2)"
    and p: "p = root_readme e \<or> p = root_license e" "fs w1 p = None"
    and t: "trace w2 = trace w1
            \<or> trace w2 = trace w1 @ [CopyFile (root_readme e) (package_file e pkg ''README.md'')]"
    unfolding copy_shared_files_cases existsSync_readme package_readme
    by (cases "fs w1 (root_readme e)") auto
  from build_package_copy_fails [OF assms(3) c]
  have "build_packages e a (pre @ pkg # post) (emit_event w (LogArgv a))
        = Inl (MissingSharedFileError p, w2)"
    using assms(2) by (simp add: build_packages_append)
  with assms(1) have "main e a w = Inl (MissingSharedFileError p, w2)"
    by (simp add: main_def Let_def)
  with p t show ?thesis by blast
qed

theorem missing_shared_file_aborts_run_witness:
  "getSortedPackages example_env (argv_scope example_argv) (argv_ignore example_argv)
     = Inr ([] @ core_pkg # [server_pkg, tool_pkg])
   \<and> \<not> truthy (pkg_scripts_build core_pkg)
   \<and> \<not> existsSync example_env (emit_event no_license_world (LogArgv example_argv))
         (path_join (basePath_of example_env core_pkg) [''README.md''])
   \<and> fs no_license_world (root_license example_env) = None
   \<and> (\<exists>p w2. main example_env example_argv no_license_world = Inl (MissingSharedFileError p, w2)
         \<and> (p = root_readme example_env \<or> p = root_license example_env)
         \<and> fs (emit_event no_license_world (LogArgv example_argv)) p = None
         \<and> (trace w2 = trace (emit_event no_license_world (LogArgv example_argv))
            \<or> trace w2 = trace (emit_event no_license_world (LogArgv example_argv))
                 @ [CopyFile (root_readme example_env)
                      (package_file example_env core_pkg ''README.md'')]))"
proof -
  let ?w1 = "emit_event no_license_world (LogArgv example_argv)"
  have 1: "getSortedPackages example_env (argv_scope example_argv) (argv_ignore example_argv)
           = Inr ([] @ core_pkg # [server_pkg, tool_pkg])"
    using example_sorted by (simp add: example_argv_def)
  have 2: "build_packages example_env example_argv [] ?w1 = Inr ?w1" by simp
  have 3: "\<not> truthy (pkg_scripts_build core_pkg)" by (simp add: core_pkg_def)
  have 4: "\<not> existsSync example_env ?w1
             (path_join (basePath_of example_env core_pkg) [''README.md''])"
    by (simp add: example_paths no_license_world_def)
  have 5: "fs no_license_world (root_license example_env) = None"
    by (simp add: example_paths no_license_world_def)
  then have 6: "fs ?w1 (root_readme example_env) = None \<or> fs ?w1 (root_license example_env) = None"
    by simp
  from missing_shared_file_aborts_run [OF 1 2 3 4 6] 1 3 4 5 show ?thesis by blast
qed

subsection \<open>Entry points\<close>





subsection \<open>Declaration emission\<close>

lemma digit_value_nth: "k < 10 \<Longrightarrow> digit_value (''0123456789'' ! k) = k"
proof -
  assume "k < 10"
  then have "k \<in> {0, 1, 2, 3, 4, 5, 6, 7, 8, 9}" by auto
  then show ?thesis by (auto simp: digit_value_def)
qed

lemma read_nat_snoc: "read_nat (s @ [c]) = 10 * read_nat s + digit_value c"
  by (simp add: read_nat_def)

lemma read_show_nat: "read_nat (show_nat n) = n"
proof (induction n rule: show_nat.induct)
  case (1 n)
  show ?case
  proof (cases "n < 10")
    case True
    then show ?thesis
      by (subst show_nat.simps) (simp add: read_nat_def digit_value_nth)
  next
    case False
    with 1 have "read_nat (show_nat (n div 10)) = n div 10" by simp
    with False show ?thesis
      by (subst show_nat.simps) (simp add: read_nat_snoc digit_value_nth)
  qed
qed

text \<open>
  C6. \<^verbatim>\<open>emitTSDeclaration\<close> always creates the program and emits, whatever the
  diagnostics are, then prints every diagnostic, the pre-emit ones first and the emit
  result's after them; it has no failing branch. A diagnostic with a source file is
  printed as file name, line and column (both counted from one, in decimal) and message;
  one without a file as its message.
\<close>

theorem emitTSDeclaration_always_emits_and_prints:
  "emitTSDeclaration e name entryPoints outdir w =
     w\<lparr>trace := trace w
        @ [ConsoleLog [''Generating .d.ts files for...'', name],
           CreateProgram entryPoints (compilerOptions outdir),
           ProgramEmit entryPoints (compilerOptions outdir)]
        @ map (\<lambda>d. ConsoleLog [diagnostic_line e d])
            (getPreEmitDiagnostics e (fs w) entryPoints (compilerOptions outdir)
             @ emit_diagnostics e (fs w) entryPoints (compilerOptions outdir))\<rparr>
   \<and> (\<forall>d file. diag_file d = Some file \<longrightarrow>
         diagnostic_line e d
         = fileName file @ '' (''
           @ show_nat (fst (getLineAndCharacterOfPosition e file (diag_start d)) + 1) @ '',''
           @ show_nat (snd (getLineAndCharacterOfPosition e file (diag_start d)) + 1) @ ''): ''
           @ flattenDiagnosticMessageText e (diag_messageText d) [CHR 0x0A])
   \<and> (\<forall>d. diag_file d = None \<longrightarrow>
         diagnostic_line e d = flattenDiagnosticMessageText e (diag_messageText d) [CHR 0x0A])
   \<and> (\<forall>n. read_nat (show_nat n) = n)"
  by (simp add: emitTSDeclaration_eq diagnostic_line_def read_show_nat split: prod.splits)

theorem emitTSDeclaration_always_emits_and_prints_witness:
  "diag_file example_diagnostic = Some \<lparr> fileName = ''src/index.ts'' \<rparr>
   \<and> diag_file global_diagnostic = None
   \<and> emitTSDeclaration diagnosing_env ''core'' [] (outdir_of example_env core_pkg) example_world
     = example_world\<lparr>trace :=
         [ConsoleLog [''Generating .d.ts files for...'', ''core''],
          CreateProgram [] (compilerOptions (outdir_of example_env core_pkg)),
          ProgramEmit [] (compilerOptions (outdir_of example_env core_pkg)),
          ConsoleLog [''src/index.ts (3,1): Cannot find name x.''],
          ConsoleLog [''Unknown compiler option.'']]\<rparr>"
proof -
  let ?e = diagnosing_env
  have h: "diag_file example_diagnostic = Some \<lparr> fileName = ''src/index.ts'' \<rparr>"
    by (simp add: example_diagnostic_def)
  have g: "diag_file global_diagnostic = None"
    by (simp add: global_diagnostic_def)
  note inst = emitTSDeclaration_always_emits_and_prints
    [of ?e "''core''" "[]" "outdir_of example_env core_pkg" example_world]
  from inst have eq:
    "emitTSDeclaration ?e ''core'' [] (outdir_of example_env core_pkg) example_world
     = example_world\<lparr>trace :=
         [ConsoleLog [''Generating .d.ts files for...'', ''core''],
          CreateProgram [] (compilerOptions (outdir_of example_env core_pkg)),
          ProgramEmit [] (compilerOptions (outdir_of example_env core_pkg)),
          ConsoleLog [diagnostic_line ?e example_diagnostic],
          ConsoleLog [diagnostic_line ?e global_diagnostic]]\<rparr>"
    by (simp add: diagnosing_env_def example_env_def example_world_def)
  from inst h have "diagnostic_line ?e example_diagnostic
      = fileName \<lparr> fileName = ''src/index.ts'' \<rparr> @ '' (''
        @ show_nat (fst (getLineAndCharacterOfPosition ?e \<lparr> fileName = ''src/index.ts'' \<rparr>
                          (diag_start example_diagnostic)) + 1) @ '',''
        @ show_nat (snd (getLineAndCharacterOfPosition ?e \<lparr> fileName = ''src/index.ts'' \<rparr>
                          (diag_start example_diagnostic)) + 1) @ ''): ''
        @ flattenDiagnosticMessageText ?e (diag_messageText example_diagnostic) [CHR 0x0A]"
    by blast
  then have l1: "diagnostic_line ?e example_diagnostic = ''src/index.ts (3,1): Cannot find name x.''"
    by (simp add: diagnosing_env_def example_env_def example_diagnostic_def show_nat.simps)
  from inst g have "diagnostic_line ?e global_diagnostic
      = flattenDiagnosticMessageText ?e (diag_messageText global_diagnostic) [CHR 0x0A]"
    by blast
  then have l2: "diagnostic_line ?e global_diagnostic = ''Unknown compiler option.''"
    by (simp add: diagnosing_env_def example_env_def global_diagnostic_def)
  from eq h g show ?thesis unfolding l1 l2 by simp
qed

subsection \<open>Watch mode\<close>

text \<open>
  C7. With \<^verbatim>\<open>--watch\<close>, the ES-module build of a package is issued with the rebuild
  hook of that package. Called without an error, the hook emits the declarations again:
  the log line, the program created from the package's entry points, the emit, and the
  diagnostics printed. Called with an error, it prints the error and does nothing else.
\<close>

theorem watch_registers_rebuild_hook:
  assumes "argv_watch a"
    and "\<not> truthy (pkg_scripts_build pkg)"
    and "copy_shared_files e (basePath_of e pkg) w = Inr w1"
  shows "\<exists>w'. build_package e a pkg w = Inr w'
     \<and> EsbuildBuild (esm_options a (pkg_name pkg) (entryPoints_of e pkg w1) (outdir_of e pkg))
         \<in> set (trace w')
     \<and> bo_format (esm_options a (pkg_name pkg) (entryPoints_of e pkg w1) (outdir_of e pkg)) = ''esm''
     \<and> bo_watch (esm_options a (pkg_name pkg) (entryPoints_of e pkg w1) (outdir_of e pkg))
         = WatchOnRebuild (pkg_name pkg) (entryPoints_of e pkg w1) (outdir_of e pkg)
     \<and> (\<forall>w2. rebuild e (WatchOnRebuild (pkg_name pkg) (entryPoints_of e pkg w1) (outdir_of e pkg))
                 None w2
              = w2\<lparr>trace := trace w2
                  @ [ConsoleLog [''Generating .d.ts files for...'', pkg_name pkg],
                     CreateProgram (entryPoints_of e pkg w1) (compilerOptions (outdir_of e pkg)),
                     ProgramEmit (entryPoints_of e pkg w1) (compilerOptions (outdir_of e pkg))]
                  @ map (\<lambda>d. ConsoleLog [diagnostic_line e d])
                      (getPreEmitDiagnostics e (fs w2) (entryPoints_of e pkg w1)
                         (compilerOptions (outdir_of e pkg))
                       @ emit_diagnostics e (fs w2) (entryPoints_of e pkg w1)
                           (compilerOptions (outdir_of e pkg)))\<rparr>)
     \<and> (\<forall>w2. rebuild e (WatchOnRebuild (pkg_name pkg) (entryPoints_of e pkg w1) (outdir_of e pkg))
                 None w2
              = emitTSDeclaration e (pkg_name pkg) (entryPoints_of e pkg w1) (outdir_of e pkg) w2)
     \<and> (\<forall>err w2. rebuild e (WatchOnRebuild (pkg_name pkg) (entryPoints_of e pkg w1) (outdir_of e pkg))
                 (Some err) w2
              = w2\<lparr>trace := trace w2 @ [ConsoleError err]\<rparr>)"
proof -
  let ?hook = "WatchOnRebuild (pkg_name pkg) (entryPoints_of e pkg w1) (outdir_of e pkg)"
  from build_package_built [OF assms(2,3), of a]
  have b: "build_package e a pkg w = Inr (w1\<lparr>trace := trace w1 @ build_events e a pkg w1\<rparr>)" .
  have ev: "EsbuildBuild (esm_options a (pkg_name pkg) (entryPoints_of e pkg w1) (outdir_of e pkg))
            \<in> set (trace (w1\<lparr>trace := trace w1 @ build_events e a pkg w1\<rparr>))"
    by (simp add: build_events_def)
  have f: "bo_format (esm_options a (pkg_name pkg) (entryPoints_of e pkg w1) (outdir_of e pkg)) = ''esm''"
    by (simp add: esm_options_def)
  have h: "bo_watch (esm_options a (pkg_name pkg) (entryPoints_of e pkg w1) (outdir_of e pkg)) = ?hook"
    using assms(1) by (simp add: esm_options_def)
  have ok: "rebuild e ?hook None w2
            = emitTSDeclaration e (pkg_name pkg) (entryPoints_of e pkg w1) (outdir_of e pkg) w2" for w2
    by (simp add: onRebuild_def)
  have err: "rebuild e ?hook (Some x) w2 = w2\<lparr>trace := trace w2 @ [ConsoleError x]\<rparr>" for x w2
    by (simp add: onRebuild_def console_error_def emit_event_def)
  have ok': "rebuild e ?hook None w2
            = w2\<lparr>trace := trace w2
                  @ [ConsoleLog [''Generating .d.ts files for...'', pkg_name pkg],
                     CreateProgram (entryPoints_of e pkg w1) (compilerOptions (outdir_of e pkg)),
                     ProgramEmit (entryPoints_of e pkg w1) (compilerOptions (outdir_of e pkg))]
                  @ map (\<lambda>d. ConsoleLog [diagnostic_line e d])
                      (getPreEmitDiagnostics e (fs w2) (entryPoints_of e pkg w1)
                         (compilerOptions (outdir_of e pkg))
                       @ emit_diagnostics e (fs w2) (entryPoints_of e pkg w1)
                           (compilerOptions (outdir_of e pkg)))\<rparr>" for w2
    unfolding ok by (rule emitTSDeclaration_eq)
  from b ev f h ok' ok err show ?thesis by blast
qed

theorem watch_registers_rebuild_hook_witness:
  "argv_watch example_argv
   \<and> \<not> truthy (pkg_scripts_build server_pkg)
   \<and> (\<exists>w1 w'. copy_shared_files example_env (basePath_of example_env server_pkg) example_world
                 = Inr w1
        \<and> entryPoints_of example_env server_pkg w1 = [''/repo/packages/server/src/index.ts'']
        \<and> build_package example_env example_argv server_pkg example_world = Inr w'
        \<and> EsbuildBuild (esm_options example_argv ''server''
              [''/repo/packages/server/src/index.ts''] (outdir_of example_env server_pkg))
            \<in> set (trace w')
        \<and> bo_watch (esm_options example_argv ''server''
              [''/repo/packages/server/src/index.ts''] (outdir_of example_env server_pkg))
          = WatchOnRebuild ''server'' [''/repo/packages/server/src/index.ts'']
              (outdir_of example_env server_pkg)
        \<and> rebuild example_env
              (WatchOnRebuild ''server'' [''/repo/packages/server/src/index.ts'']
                 (outdir_of example_env server_pkg)) None w'
          = w'\<lparr>trace := trace w'
              @ [ConsoleLog [''Generating .d.ts files for...'', ''server''],
                 CreateProgram [''/repo/packages/server/src/index.ts'']
                   (compilerOptions (outdir_of example_env server_pkg)),
                 ProgramEmit [''/repo/packages/server/src/index.ts'']
                   (compilerOptions (outdir_of example_env server_pkg)),
                 ConsoleLog [''src/index.ts (3,1): Cannot find name x.'']]\<rparr>
        \<and> rebuild example_env
              (WatchOnRebuild ''server'' [''/repo/packages/server/src/index.ts'']
                 (outdir_of example_env server_pkg)) (Some ''build failed'') w'
          = w'\<lparr>trace := trace w' @ [ConsoleError ''build failed'']\<rparr>)"
proof -
  let ?e = example_env and ?w = example_world
  have r: "fs ?w (root_readme ?e) \<noteq> None" "fs ?w (root_license ?e) \<noteq> None"
    by (simp_all add: example_paths)
  then have "\<exists>w1. copy_shared_files ?e (basePath_of ?e server_pkg) ?w = Inr w1"
    unfolding copy_shared_files_cases by (auto split: option.splits)
  then obtain w1 where 3: "copy_shared_files ?e (basePath_of ?e server_pkg) ?w = Inr w1" ..
  have 1: "argv_watch example_argv" by (simp add: example_argv_def)
  have 2: "\<not> truthy (pkg_scripts_build server_pkg)" by (simp add: server_pkg_def)
  have eps: "entryPoints_of ?e server_pkg w1 = [''/repo/packages/server/src/index.ts'']"
    by (simp add: entryPoints_of_def entry_pattern_def path_string_def replace_backslashes_def
        example_paths)
  have n: "pkg_name server_pkg = ''server''" by (simp add: server_pkg_def)
  have d: "diagnostic_line ?e example_diagnostic = ''src/index.ts (3,1): Cannot find name x.''"
    by (simp add: diagnostic_line_def example_env_def example_diagnostic_def show_nat.simps)
  have pre: "getPreEmitDiagnostics ?e files eps options = [example_diagnostic]"
    and post: "emit_diagnostics ?e files eps options = []" for files eps options
    by (simp_all add: example_env_def)
  from watch_registers_rebuild_hook [OF 1 2 3, unfolded eps n pre post]
  obtain w' where "build_package ?e example_argv server_pkg ?w = Inr w'
     \<and> EsbuildBuild (esm_options example_argv ''server''
              [''/repo/packages/server/src/index.ts''] (outdir_of ?e server_pkg))
            \<in> set (trace w')
     \<and> bo_watch (esm_options example_argv ''server''
              [''/repo/packages/server/src/index.ts''] (outdir_of ?e server_pkg))
          = WatchOnRebuild ''server'' [''/repo/packages/server/src/index.ts'']
              (outdir_of ?e server_pkg)
     \<and> rebuild ?e
              (WatchOnRebuild ''server'' [''/repo/packages/server/src/index.ts'']
                 (outdir_of ?e server_pkg)) None w'
          = w'\<lparr>trace := trace w'
              @ [ConsoleLog [''Generating .d.ts files for...'', ''server''],
                 CreateProgram [''/repo/packages/server/src/index.ts'']
                   (compilerOptions (outdir_of ?e server_pkg)),
                 ProgramEmit [''/repo/packages/server/src/index.ts'']
                   (compilerOptions (outdir_of ?e server_pkg)),
                 ConsoleLog [''src/index.ts (3,1): Cannot find name x.'']]\<rparr>
     \<and> rebuild ?e
              (WatchOnRebuild ''server'' [''/repo/packages/server/src/index.ts'']
                 (outdir_of ?e server_pkg)) (Some ''build failed'') w'
          = w'\<lparr>trace := trace w' @ [ConsoleError ''build failed'']\<rparr>"
    by (auto simp: d)
  with 1 2 3 eps show ?thesis by blast
qed

end
